theory Spec2Isabelle
  imports Complex_Main
begin

section \<open>Exceptions, outcomes and the call trace\<close>

text \<open>
  The Python exceptions that can travel through \<open>plugins/cfs/cfs_time_manager.py\<close>.
  \<open>AttributeError\<close> is what an attribute access on \<open>None\<close> raises, \<open>ValueError\<close> and
  \<open>OverflowError\<close> what \<open>time.sleep\<close> raises on a length it refuses, \<open>OtherException\<close>
  stands for any other subclass of \<open>Exception\<close> (a socket error, an \<open>OSError\<close>) and
  \<open>KeyboardInterrupt\<close> for the subclasses of \<open>BaseException\<close> that are not subclasses
  of \<open>Exception\<close>.
\<close>

datatype exn =
    CtfConditionError
  | CtfTestError
  | AttributeError
  | ValueError
  | OverflowError
  | OtherException
  | KeyboardInterrupt

text \<open>
  Modelled from the spec: the class hierarchy of \<open>lib/exceptions.py\<close> is not among the
  sources. The spec calls a generic test error "a CtfTestError that is not a condition
  failure", so \<open>CtfConditionError\<close> is a subclass of \<open>CtfTestError\<close>, itself an
  \<open>Exception\<close>.
\<close>

fun isinstance_CtfConditionError :: "exn \<Rightarrow> bool" where
  "isinstance_CtfConditionError CtfConditionError = True"
| "isinstance_CtfConditionError _ = False"

fun isinstance_CtfTestError :: "exn \<Rightarrow> bool" where
  "isinstance_CtfTestError CtfConditionError = True"
| "isinstance_CtfTestError CtfTestError = True"
| "isinstance_CtfTestError _ = False"

fun isinstance_Exception :: "exn \<Rightarrow> bool" where
  "isinstance_Exception KeyboardInterrupt = False"
| "isinstance_Exception _ = True"

text \<open>
  A call either returns or raises; the object it mutated is there in both cases, since
  a Python exception does not undo assignments.
\<close>

datatype 's outcome = Returned 's | Raised exn 's

fun state_of :: "'s outcome \<Rightarrow> 's" where
  "state_of (Returned s) = s"
| "state_of (Raised e s) = s"

fun raised :: "'s outcome \<Rightarrow> exn option" where
  "raised (Returned s) = None"
| "raised (Raised e s) = Some e"

text \<open>
  What a run does besides changing \<open>exec_time\<close>: the hooks entered, the calls made on
  the targets (by the target's configured name), the sleeps and the log records, in the
  order in which they happen.
\<close>

datatype event =
    PreCommand
  | PostCommand
  | ReadSbPackets string
  | CheckTlmConditions string
  | Sleep rat
  | LogError string
  | LogDebug exn
  | LogTraceback exn

section \<open>Targets and the state of the time manager\<close>

text \<open>
  A target's \<open>cfs\<close> interface is an external collaborator. Its two operations act on
  the world outside the manager (type \<open>'w\<close>) and either return (\<open>None\<close>) or raise.
\<close>

record 'w cfs_interface =
  read_sb_packets :: "'w \<Rightarrow> exn option \<times> 'w"
  check_tlm_conditions :: "'w \<Rightarrow> exn option \<times> 'w"

record 'w target =
  config_name :: string
  cfs :: "'w cfs_interface option"

text \<open>
  \<open>cfs_targets\<close> is a Python dict, iterated in insertion order; a value may be \<open>None\<close>
  (line 94 tests for it). Time is a rational number here: the arithmetic of the loop
  is exact, where Python's is floating point. The section on the clock in double
  precision gives the same loop with the sums rounded as Python rounds them; what
  depends on the value of the clock, and not only on the order of the calls, is
  settled there. \<open>time_sleep\<close> is the blocking call
  behind \<open>time.sleep\<close>, as the platform provides it: like the operations of a target
  it acts on the world, and it returns or raises (an \<open>OSError\<close> for a length the
  platform refuses, \<open>KeyboardInterrupt\<close> when the process is interrupted).
\<close>

record 'w CfsTimeManager =
  exec_time :: rat
  ctf_verification_poll_period :: rat
  cfs_targets :: "(string \<times> 'w target option) list"
  time_sleep :: "rat \<Rightarrow> 'w \<Rightarrow> exn option \<times> 'w"
  world :: 'w
  trace :: "event list"

definition dict_values :: "('k \<times> 'v) list \<Rightarrow> 'v list" where
  "dict_values d = map snd d"

definition emit :: "event list \<Rightarrow> 'w CfsTimeManager \<Rightarrow> 'w CfsTimeManager" where
  "emit evs s = s\<lparr>trace := trace s @ evs\<rparr>"

section \<open>The base class\<close>

text \<open>
  Modelled from the spec: \<open>lib/time_interface.py\<close> (class \<open>TimeInterface\<close>) is not among
  the sources. The spec describes its hooks as extension points that are no-ops at this
  layer, and leaves the whole advance of \<open>exec_time\<close> to the subclass's \<open>wait\<close>.
\<close>

definition TimeInterface_wait :: "'t \<Rightarrow> 'w CfsTimeManager \<Rightarrow> 'w CfsTimeManager outcome" where
  "TimeInterface_wait seconds s = Returned s"

definition TimeInterface_pre_command :: "'w CfsTimeManager \<Rightarrow> 'w CfsTimeManager outcome" where
  "TimeInterface_pre_command s = Returned s"

definition TimeInterface_post_command :: "'w CfsTimeManager \<Rightarrow> 'w CfsTimeManager outcome" where
  "TimeInterface_post_command s = Returned s"

section \<open>The polling time manager\<close>

text \<open>\<open>handle_test_exception_during_wait\<close>, lines 49 to 53.\<close>

definition handle_test_exception_during_wait ::
  "exn \<Rightarrow> string \<Rightarrow> bool \<Rightarrow> 'w CfsTimeManager \<Rightarrow> 'w CfsTimeManager outcome" where
  "handle_test_exception_during_wait e msg do_raise s =
     (let s1 = emit [LogError (''Error: '' @ msg), LogDebug e] s
      in if do_raise then Raised e s1 else Returned s1)"

text \<open>
  The body of the \<open>try\<close> of line 76, \<open>target.cfs.read_sb_packets()\<close>: on a target that is
  \<open>None\<close>, or whose \<open>cfs\<close> is \<open>None\<close>, the attribute access raises and nothing is called.
\<close>

definition try_read_sb_packets ::
  "'w target option \<Rightarrow> 'w CfsTimeManager \<Rightarrow> 'w CfsTimeManager outcome" where
  "try_read_sb_packets t s =
     (case t of
        None \<Rightarrow> Raised AttributeError s
      | Some tg \<Rightarrow>
          (case cfs tg of
             None \<Rightarrow> Raised AttributeError s
           | Some c \<Rightarrow>
               (let (r, w) = read_sb_packets c (world s);
                    s1 = emit [ReadSbPackets (config_name tg)] (s\<lparr>world := w\<rparr>)
                in case r of None \<Rightarrow> Returned s1 | Some e \<Rightarrow> Raised e s1)))"

text \<open>
  The handler of lines 77 to 80. It reads \<open>target.config.name\<close>, which raises in its
  turn when the target is \<open>None\<close>.
\<close>

definition read_failed ::
  "'w target option \<Rightarrow> exn \<Rightarrow> 'w CfsTimeManager \<Rightarrow> 'w CfsTimeManager outcome" where
  "read_failed t e s =
     (case t of
        None \<Rightarrow> Raised AttributeError s
      | Some tg \<Rightarrow>
          Returned (emit [LogError (''Failed to receive CFS Telemetry Packets for CFS Target: ''
                                    @ config_name tg @ ''.''),
                          LogTraceback e] s))"

text \<open>The loop of lines 74 to 80 over the values of the registry.\<close>

fun read_all :: "'w target option list \<Rightarrow> 'w CfsTimeManager \<Rightarrow> 'w CfsTimeManager outcome" where
  "read_all [] s = Returned s"
| "read_all (t # ts) s =
     (case try_read_sb_packets t s of
        Returned s1 \<Rightarrow> read_all ts s1
      | Raised e s1 \<Rightarrow>
          if isinstance_Exception e
          then (case read_failed t e s1 of
                  Returned s2 \<Rightarrow> read_all ts s2
                | Raised e' s2 \<Rightarrow> Raised e' s2)
          else Raised e s1)"

text \<open>The loop of lines 93 to 95, with its guard against \<open>None\<close>.\<close>

fun check_all :: "'w target option list \<Rightarrow> 'w CfsTimeManager \<Rightarrow> 'w CfsTimeManager outcome" where
  "check_all [] s = Returned s"
| "check_all (t # ts) s =
     (case t of
        None \<Rightarrow> check_all ts s
      | Some tg \<Rightarrow>
          (case cfs tg of
             None \<Rightarrow> check_all ts s
           | Some c \<Rightarrow>
               (let (r, w) = check_tlm_conditions c (world s);
                    s1 = emit [CheckTlmConditions (config_name tg)] (s\<lparr>world := w\<rparr>)
                in case r of None \<Rightarrow> check_all ts s1 | Some e \<Rightarrow> Raised e s1)))"

text \<open>\<open>run_continuous_verifications\<close>, lines 91 to 98.\<close>

definition run_continuous_verifications ::
  "'w CfsTimeManager \<Rightarrow> 'w CfsTimeManager outcome" where
  "run_continuous_verifications s =
     (case check_all (dict_values (cfs_targets s)) s of
        Returned s1 \<Rightarrow> Returned s1
      | Raised e s1 \<Rightarrow>
          if isinstance_CtfConditionError e
          then Raised e (emit [LogError ''Test condition(s) failed in Post Command.''] s1)
          else Raised e s1)"

text \<open>\<open>pre_command\<close>, lines 72 to 89. The event \<open>PreCommand\<close> records that it was entered.\<close>

definition pre_command :: "'w CfsTimeManager \<Rightarrow> 'w CfsTimeManager outcome" where
  "pre_command s =
     (case TimeInterface_pre_command (emit [PreCommand] s) of
        Raised e s0 \<Rightarrow> Raised e s0
      | Returned s0 \<Rightarrow>
          (case read_all (dict_values (cfs_targets s0)) s0 of
             Raised e s1 \<Rightarrow> Raised e s1
           | Returned s1 \<Rightarrow>
               (case run_continuous_verifications s1 of
                  Returned s2 \<Rightarrow> Returned s2
                | Raised e s2 \<Rightarrow>
                    if isinstance_CtfConditionError e then Raised e s2
                    else if isinstance_CtfTestError e then Raised e (emit [LogDebug e] s2)
                    else Raised e s2)))"

text \<open>\<open>post_command\<close>, lines 100 and 101.\<close>

definition post_command :: "'w CfsTimeManager \<Rightarrow> 'w CfsTimeManager outcome" where
  "post_command s = TimeInterface_post_command (emit [PostCommand] s)"

text \<open>
  \<open>time.sleep\<close>. CPython first converts the length to a whole number of nanoseconds,
  rounding away from zero: a number that does not fit a signed 64-bit integer raises
  \<open>OverflowError\<close>, and a negative one \<open>ValueError\<close>.
\<close>

definition sleep_error :: "rat \<Rightarrow> exn option" where
  "sleep_error secs =
     (let ns = (if 0 \<le> secs then \<lceil>secs * 10 ^ 9\<rceil> else \<lfloor>secs * 10 ^ 9\<rfloor>)
      in if ns < - (2 ^ 63) \<or> 2 ^ 63 \<le> ns then Some OverflowError
         else if ns < 0 then Some ValueError
         else None)"

text \<open>
  Then it blocks. The event \<open>Sleep\<close> records a sleep that returned; one that raises
  leaves no event.
\<close>

definition block :: "rat \<Rightarrow> 'w CfsTimeManager \<Rightarrow> 'w CfsTimeManager outcome" where
  "block secs s =
     (let (r, w) = time_sleep s secs (world s)
      in case r of
           None \<Rightarrow> Returned (emit [Sleep secs] (s\<lparr>world := w\<rparr>))
         | Some e \<Rightarrow> Raised e (s\<lparr>world := w\<rparr>))"

definition sleep :: "rat \<Rightarrow> 'w CfsTimeManager \<Rightarrow> 'w CfsTimeManager outcome" where
  "sleep secs s =
     (case sleep_error secs of
        Some e \<Rightarrow> Raised e s
      | None \<Rightarrow> block secs s)"

text \<open>
  A \<open>try\<close> whose only handler is \<open>except CtfTestError as e\<close> calling
  \<open>handle_test_exception_during_wait(e, msg, True)\<close>, as at lines 59 to 62 and 64 to 67:
  any other exception passes through untouched.
\<close>

definition guarded :: "string \<Rightarrow> 'w CfsTimeManager outcome \<Rightarrow> 'w CfsTimeManager outcome" where
  "guarded msg r =
     (case r of
        Returned s \<Rightarrow> Returned s
      | Raised e s \<Rightarrow>
          if isinstance_CtfTestError e
          then handle_test_exception_during_wait e msg True s
          else Raised e s)"

text \<open>One iteration of the \<open>while\<close> of \<open>wait\<close>: lines 59 to 70.\<close>

definition poll :: "'w CfsTimeManager \<Rightarrow> 'w CfsTimeManager outcome" where
  "poll s =
     (case guarded ''CfsTimeManager: Pre-Command Failed'' (pre_command s) of
        Raised e s1 \<Rightarrow> Raised e s1
      | Returned s1 \<Rightarrow>
          (case guarded ''CfsTimeManager: Post-Command Failed'' (post_command s1) of
             Raised e s2 \<Rightarrow> Raised e s2
           | Returned s2 \<Rightarrow>
               (case sleep (ctf_verification_poll_period s2) s2 of
                  Raised e s3 \<Rightarrow> Raised e s3
                | Returned s3 \<Rightarrow>
                    Returned (s3\<lparr>exec_time := exec_time s3 + ctf_verification_poll_period s3\<rparr>))))"

text \<open>
  The \<open>while\<close> of line 58. With a poll period of zero it never ends, so the loop is a
  partial function: \<open>None\<close> is a run that does not return.
\<close>

partial_function (option) wait_loop ::
  "rat \<Rightarrow> rat \<Rightarrow> 'w CfsTimeManager \<Rightarrow> 'w CfsTimeManager outcome option" where
  "wait_loop start_time seconds s =
     (if exec_time s < start_time + seconds
      then (case poll s of
              Raised e s1 \<Rightarrow> Some (Raised e s1)
            | Returned s1 \<Rightarrow> wait_loop start_time seconds s1)
      else Some (Returned s))"

text \<open>\<open>wait\<close>, lines 55 to 70.\<close>

definition wait :: "rat \<Rightarrow> 'w CfsTimeManager \<Rightarrow> 'w CfsTimeManager outcome option" where
  "wait seconds s =
     (case TimeInterface_wait seconds s of
        Raised e s0 \<Rightarrow> Some (Raised e s0)
      | Returned s0 \<Rightarrow> wait_loop (exec_time s0) seconds s0)"


section \<open>Reading the trace\<close>



fun is_step :: "event \<Rightarrow> bool" where
  "is_step PreCommand = True"
| "is_step PostCommand = True"
| "is_step (Sleep d) = True"
| "is_step _ = False"

fun is_io :: "event \<Rightarrow> bool" where
  "is_io PreCommand = False"
| "is_io PostCommand = False"
| "is_io (Sleep d) = False"
| "is_io _ = True"

fun is_read :: "event \<Rightarrow> bool" where
  "is_read (ReadSbPackets n) = True"
| "is_read _ = False"


text \<open>
  \<open>frame s s'\<close>: \<open>s'\<close> differs from \<open>s\<close> in the world and in events of the third class
  appended to the trace, and in nothing else.
\<close>

definition frame :: "'w CfsTimeManager \<Rightarrow> 'w CfsTimeManager \<Rightarrow> bool" where
  "frame s s' \<longleftrightarrow>
     exec_time s' = exec_time s \<and>
     ctf_verification_poll_period s' = ctf_verification_poll_period s \<and>
     cfs_targets s' = cfs_targets s \<and>
     time_sleep s' = time_sleep s \<and>
     (\<exists>new. trace s' = trace s @ new \<and> list_all is_io new)"

section \<open>Example registries\<close>

text \<open>
  Concrete targets over a world that counts the telemetry reads made so far. They are
  the instances at which the theorems below are evaluated.
\<close>

definition steady_cfs :: "nat cfs_interface" where
  "steady_cfs =
     \<lparr>read_sb_packets = (\<lambda>w. (None, Suc w)),
      check_tlm_conditions = (\<lambda>w. (None, w))\<rparr>"





definition named :: "string \<Rightarrow> nat cfs_interface \<Rightarrow> string \<times> nat target option" where
  "named n c = (n, Some \<lparr>config_name = n, cfs = Some c\<rparr>)"

definition manager :: "(string \<times> nat target option) list \<Rightarrow> nat CfsTimeManager" where
  "manager reg =
     \<lparr>exec_time = 0, ctf_verification_poll_period = 1 / 10, cfs_targets = reg,
      time_sleep = (\<lambda>secs w. (None, w)), world = 0, trace = []\<rparr>"

section \<open>The clock in double precision\<close>

text \<open>
  \<open>exec_time\<close>, the poll period and the argument of \<open>wait\<close> are Python floats: IEEE 754
  binary64 numbers. A finite one is \<open>m * 2 ^ q\<close> with \<open>\<bar>m\<bar> < 2 ^ 53\<close> and
  \<open>- 1074 \<le> q \<le> 971\<close>; besides there are the two infinities and NaN. (The sign of a
  zero plays no part in \<open>+\<close> and \<open><\<close>.)
\<close>

datatype pyfloat = Finite rat | PosInf | NegInf | NaN

fun bit_length :: "nat \<Rightarrow> nat" where
  "bit_length n = (if n = 0 then 0 else Suc (bit_length (n div 2)))"

declare bit_length.simps [simp del]

definition round_half_even :: "rat \<Rightarrow> int" where
  "round_half_even x =
     (let f = \<lfloor>x\<rfloor>; d = x - of_int f
      in if d < 1 / 2 then f
         else if 1 / 2 < d then f + 1
         else if even f then f else f + 1)"

text \<open>
  The double nearest to a rational, ties to the even significand. \<open>y\<close> is the
  magnitude in units of \<open>2 ^ - 1074\<close>, the spacing of the smallest doubles; \<open>k\<close> is the
  number of low bits that do not fit the 53 bits of a significand (a subtraction on
  \<open>nat\<close>, so \<open>0\<close> for the values up to \<open>2 ^ - 1021\<close>); a result of \<open>2 ^ 1024\<close> or more is an
  infinity.
\<close>

definition double_of :: "rat \<Rightarrow> pyfloat" where
  "double_of x =
     (let y = \<bar>x\<bar> * 2 ^ 1074;
          k = bit_length (nat \<lfloor>y\<rfloor>) - 53;
          m = round_half_even (y / 2 ^ k)
      in if 2 ^ 2098 \<le> m * 2 ^ k then (if 0 < x then PosInf else NegInf)
         else Finite (sgn x * of_int (m * 2 ^ k) / 2 ^ 1074))"

text \<open>Python's \<open>+\<close> on floats: the exact sum, rounded.\<close>

fun float_add :: "pyfloat \<Rightarrow> pyfloat \<Rightarrow> pyfloat" where
  "float_add (Finite x) (Finite y) = double_of (x + y)"
| "float_add NaN _ = NaN"
| "float_add _ NaN = NaN"
| "float_add PosInf NegInf = NaN"
| "float_add NegInf PosInf = NaN"
| "float_add PosInf _ = PosInf"
| "float_add _ PosInf = PosInf"
| "float_add NegInf _ = NegInf"
| "float_add _ NegInf = NegInf"

text \<open>Python's \<open><\<close> on floats: false whenever a NaN is compared.\<close>

fun float_less :: "pyfloat \<Rightarrow> pyfloat \<Rightarrow> bool" where
  "float_less (Finite x) (Finite y) = (x < y)"
| "float_less NaN _ = False"
| "float_less _ NaN = False"
| "float_less _ NegInf = False"
| "float_less NegInf _ = True"
| "float_less PosInf _ = False"
| "float_less (Finite x) PosInf = True"

text \<open>
  \<open>time.sleep\<close> on a float. NaN raises \<open>ValueError\<close>. Otherwise CPython multiplies the
  length by \<open>1e9\<close> (a float product), rounds away from zero to a whole number of
  nanoseconds, raises \<open>OverflowError\<close> when that does not fit a signed 64-bit integer
  and \<open>ValueError\<close> when it is negative, and then blocks.
\<close>

definition nanoseconds_error :: "rat \<Rightarrow> exn option" where
  "nanoseconds_error x =
     (case double_of (x * 10 ^ 9) of
        Finite d \<Rightarrow>
          (let ns = (if 0 \<le> d then \<lceil>d\<rceil> else \<lfloor>d\<rfloor>)
           in if ns < - (2 ^ 63) \<or> 2 ^ 63 \<le> ns then Some OverflowError
              else if ns < 0 then Some ValueError
              else None)
      | _ \<Rightarrow> Some OverflowError)"

fun sleep_double :: "pyfloat \<Rightarrow> 'w CfsTimeManager \<Rightarrow> 'w CfsTimeManager outcome" where
  "sleep_double NaN s = Raised ValueError s"
| "sleep_double PosInf s = Raised OverflowError s"
| "sleep_double NegInf s = Raised OverflowError s"
| "sleep_double (Finite x) s =
     (case nanoseconds_error x of
        Some e \<Rightarrow> Raised e s
      | None \<Rightarrow> block x s)"

text \<open>
  The time manager with its two float attributes held as doubles. \<open>manager_of\<close> carries
  the registry, the world and the trace, on which the hooks act; its own exact clock is
  not used here.
\<close>

record 'w DoubleClock =
  exec_time_f :: pyfloat
  poll_period_f :: pyfloat
  manager_of :: "'w CfsTimeManager"

text \<open>One iteration of the \<open>while\<close> of \<open>wait\<close>, lines 59 to 70, on doubles.\<close>

definition poll_double :: "'w DoubleClock \<Rightarrow> 'w DoubleClock outcome" where
  "poll_double d =
     (case guarded ''CfsTimeManager: Pre-Command Failed'' (pre_command (manager_of d)) of
        Raised e s1 \<Rightarrow> Raised e (d\<lparr>manager_of := s1\<rparr>)
      | Returned s1 \<Rightarrow>
          (case guarded ''CfsTimeManager: Post-Command Failed'' (post_command s1) of
             Raised e s2 \<Rightarrow> Raised e (d\<lparr>manager_of := s2\<rparr>)
           | Returned s2 \<Rightarrow>
               (case sleep_double (poll_period_f d) s2 of
                  Raised e s3 \<Rightarrow> Raised e (d\<lparr>manager_of := s3\<rparr>)
                | Returned s3 \<Rightarrow>
                    Returned (d\<lparr>manager_of := s3,
                                exec_time_f := float_add (exec_time_f d) (poll_period_f d)\<rparr>))))"

text \<open>The \<open>while\<close> of line 58 on doubles; \<open>None\<close> is a run that does not return.\<close>

partial_function (option) wait_loop_double ::
  "pyfloat \<Rightarrow> pyfloat \<Rightarrow> 'w DoubleClock \<Rightarrow> 'w DoubleClock outcome option" where
  "wait_loop_double start_time seconds d =
     (if float_less (exec_time_f d) (float_add start_time seconds)
      then (case poll_double d of
              Raised e d1 \<Rightarrow> Some (Raised e d1)
            | Returned d1 \<Rightarrow> wait_loop_double start_time seconds d1)
      else Some (Returned d))"

text \<open>\<open>wait\<close>, lines 55 to 70, on doubles.\<close>

definition wait_double :: "pyfloat \<Rightarrow> 'w DoubleClock \<Rightarrow> 'w DoubleClock outcome option" where
  "wait_double seconds d =
     (case TimeInterface_wait seconds (manager_of d) of
        Raised e s0 \<Rightarrow> Some (Raised e (d\<lparr>manager_of := s0\<rparr>))
      | Returned s0 \<Rightarrow>
          wait_loop_double (exec_time_f d) seconds (d\<lparr>manager_of := s0\<rparr>))"

text \<open>The clock after \<open>j\<close> increments of line 70.\<close>

fun clock_after :: "nat \<Rightarrow> pyfloat \<Rightarrow> pyfloat \<Rightarrow> pyfloat" where
  "clock_after 0 t p = t"
| "clock_after (Suc j) t p = float_add (clock_after j t p) p"

text \<open>The example manager on doubles, its clock at \<open>0.0\<close>.\<close>

definition double_manager ::
  "rat \<Rightarrow> (string \<times> nat target option) list \<Rightarrow> nat DoubleClock" where
  "double_manager p reg =
     \<lparr>exec_time_f = Finite 0, poll_period_f = Finite p, manager_of = manager reg\<rparr>"

section \<open>The secondary headers\<close>

text \<open>
  \<open>plugins/ccsds_plugin/cfe/ccsds_secondary_header.py\<close> declares two
  \<open>ctypes.BigEndianStructure\<close> classes. What the declarations mean is fixed by
  \<open>ctypes\<close>: a field of an unsigned integer type keeps the low bits of the Python int
  stored in it (there is no overflow check), each field lies at the next multiple of
  its alignment, which is its size capped by \<open>_pack_\<close>, and the bytes of a field of a
  big-endian structure run from the most significant to the least. A byte is an int in
  \<open>0..255\<close>.
\<close>

datatype ctype = c_uint8 | c_uint16 | c_uint32

fun sizeof :: "ctype \<Rightarrow> nat" where
  "sizeof c_uint8 = 1"
| "sizeof c_uint16 = 2"
| "sizeof c_uint32 = 4"

definition store :: "ctype \<Rightarrow> int \<Rightarrow> int" where
  "store ct v = v mod 2 ^ (8 * sizeof ct)"

fun be_bytes :: "nat \<Rightarrow> int \<Rightarrow> int list" where
  "be_bytes 0 v = []"
| "be_bytes (Suc n) v = (v div 256 ^ n) mod 256 # be_bytes n v"

definition be_int :: "int list \<Rightarrow> int" where
  "be_int bs = foldl (\<lambda>a b. a * 256 + b) 0 bs"

text \<open>\<open>_pack_\<close> is \<open>0\<close> when the class does not set it.\<close>

definition field_align :: "nat \<Rightarrow> ctype \<Rightarrow> nat" where
  "field_align pack ct = (if pack = 0 then sizeof ct else min pack (sizeof ct))"

definition align_up :: "nat \<Rightarrow> nat \<Rightarrow> nat" where
  "align_up a off = ((off + a - 1) div a) * a"

fun struct_align :: "nat \<Rightarrow> ctype list \<Rightarrow> nat" where
  "struct_align pack [] = 1"
| "struct_align pack (ct # cts) = max (field_align pack ct) (struct_align pack cts)"

fun end_offset :: "nat \<Rightarrow> nat \<Rightarrow> ctype list \<Rightarrow> nat" where
  "end_offset pack off [] = off"
| "end_offset pack off (ct # cts) =
     end_offset pack (align_up (field_align pack ct) off + sizeof ct) cts"

definition struct_size :: "nat \<Rightarrow> ctype list \<Rightarrow> nat" where
  "struct_size pack cts = align_up (struct_align pack cts) (end_offset pack 0 cts)"

text \<open>The memory of a structure, \<open>bytes(h)\<close>: padding bytes are zero.\<close>

fun pack_fields :: "nat \<Rightarrow> nat \<Rightarrow> (ctype \<times> int) list \<Rightarrow> int list" where
  "pack_fields pack off [] = []"
| "pack_fields pack off ((ct, v) # fs) =
     (let pos = align_up (field_align pack ct) off
      in replicate (pos - off) 0 @ be_bytes (sizeof ct) v
         @ pack_fields pack (pos + sizeof ct) fs)"

definition struct_bytes :: "nat \<Rightarrow> (ctype \<times> int) list \<Rightarrow> int list" where
  "struct_bytes pack fs =
     (let body = pack_fields pack 0 fs
      in body @ replicate (struct_size pack (map fst fs) - length body) 0)"

text \<open>
  \<open>Cls.from_buffer_copy(bs)\<close>: a buffer shorter than the structure raises \<open>ValueError\<close>;
  otherwise each field is read at its offset.
\<close>

fun unpack_fields :: "nat \<Rightarrow> nat \<Rightarrow> ctype list \<Rightarrow> int list \<Rightarrow> int list" where
  "unpack_fields pack off [] bs = []"
| "unpack_fields pack off (ct # cts) bs =
     (let pos = align_up (field_align pack ct) off
      in be_int (take (sizeof ct) (drop pos bs))
         # unpack_fields pack (pos + sizeof ct) cts bs)"

definition from_buffer_copy :: "nat \<Rightarrow> ctype list \<Rightarrow> int list \<Rightarrow> exn + int list" where
  "from_buffer_copy pack cts bs =
     (if length bs < struct_size pack cts then Inl ValueError
      else Inr (unpack_fields pack 0 cts bs))"

text \<open>\<open>CcsdsSecondaryCmdHeader\<close>, lines 23 to 40.\<close>

record CcsdsSecondaryCmdHeader =
  function_code :: int
  checksum :: int

definition CcsdsSecondaryCmdHeader_pack :: nat where
  "CcsdsSecondaryCmdHeader_pack = 1"

definition CcsdsSecondaryCmdHeader_fields :: "(string \<times> ctype) list" where
  "CcsdsSecondaryCmdHeader_fields = [(''function_code'', c_uint8), (''checksum'', c_uint8)]"

definition set_function_code :: "int \<Rightarrow> CcsdsSecondaryCmdHeader \<Rightarrow> CcsdsSecondaryCmdHeader" where
  "set_function_code v h = h\<lparr>function_code := store c_uint8 v\<rparr>"

definition set_checksum :: "int \<Rightarrow> CcsdsSecondaryCmdHeader \<Rightarrow> CcsdsSecondaryCmdHeader" where
  "set_checksum v h = h\<lparr>checksum := store c_uint8 v\<rparr>"

definition get_function_code :: "CcsdsSecondaryCmdHeader \<Rightarrow> int" where
  "get_function_code h = function_code h"

definition get_checksum :: "CcsdsSecondaryCmdHeader \<Rightarrow> int" where
  "get_checksum h = checksum h"

definition encode_cmd :: "CcsdsSecondaryCmdHeader \<Rightarrow> int list" where
  "encode_cmd h =
     struct_bytes CcsdsSecondaryCmdHeader_pack
       (zip (map snd CcsdsSecondaryCmdHeader_fields) [function_code h, checksum h])"


text \<open>\<open>CcsdsSecondaryTlmHeader\<close>, lines 43 to 48.\<close>

record CcsdsSecondaryTlmHeader =
  timestamp_seconds :: int
  timestamp_subseconds :: int

definition CcsdsSecondaryTlmHeader_pack :: nat where
  "CcsdsSecondaryTlmHeader_pack = 1"

definition CcsdsSecondaryTlmHeader_fields :: "(string \<times> ctype) list" where
  "CcsdsSecondaryTlmHeader_fields =
     [(''timestamp_seconds'', c_uint32), (''timestamp_subseconds'', c_uint16)]"

definition encode_tlm :: "CcsdsSecondaryTlmHeader \<Rightarrow> int list" where
  "encode_tlm h =
     struct_bytes CcsdsSecondaryTlmHeader_pack
       (zip (map snd CcsdsSecondaryTlmHeader_fields)
            [timestamp_seconds h, timestamp_subseconds h])"



section \<open>What a hook leaves unchanged\<close>

lemma frame_refl: "frame s s"
  by (simp add: frame_def)

lemma frame_trans: "frame s s1 \<Longrightarrow> frame s1 s2 \<Longrightarrow> frame s s2"
  by (auto simp: frame_def)

lemma frame_emit: "list_all is_io evs \<Longrightarrow> frame s (emit evs s)"
  by (simp add: frame_def emit_def)

lemma frame_world: "frame s s' \<Longrightarrow> frame (s\<lparr>world := w\<rparr>) s'"
  by (simp add: frame_def)

lemma try_read_frame: "frame s (state_of (try_read_sb_packets t s))"
  by (auto simp: try_read_sb_packets_def frame_def emit_def Let_def
      split: option.splits prod.splits)

lemma read_failed_frame: "frame s (state_of (read_failed t e s))"
  by (auto simp: read_failed_def frame_def emit_def split: option.splits)

lemma read_all_frame: "frame s (state_of (read_all ts s))"
proof (induction ts arbitrary: s)
  case Nil
  show ?case by (simp add: frame_refl)
next
  case (Cons t ts)
  show ?case
  proof (cases "try_read_sb_packets t s")
    case (Returned s1)
    have "frame s s1" using try_read_frame [of s t] Returned by simp
    then show ?thesis using Cons [of s1] Returned by (auto intro: frame_trans)
  next
    case (Raised e s1)
    have f1: "frame s s1" using try_read_frame [of s t] Raised by simp
    show ?thesis
    proof (cases "read_failed t e s1")
      case (Returned s2)
      have "frame s1 s2" using read_failed_frame [of s1 t e] Returned by simp
      then show ?thesis using Cons [of s2] Returned Raised f1 by (auto intro: frame_trans)
    next
      case R2: (Raised e2 s2)
      have "frame s1 s2" using read_failed_frame [of s1 t e] R2 by simp
      then show ?thesis using R2 Raised f1 by (auto intro: frame_trans)
    qed
  qed
qed

lemma check_all_frame: "frame s (state_of (check_all ts s))"
proof (induction ts arbitrary: s)
  case Nil
  show ?case by (simp add: frame_refl)
next
  case (Cons t ts)
  show ?case
  proof (cases t)
    case None
    then show ?thesis using Cons by simp
  next
    case (Some tg)
    show ?thesis
    proof (cases "cfs tg")
      case None
      then show ?thesis using Some Cons by simp
    next
      case Sc: (Some c)
      obtain r w where rw: "check_tlm_conditions c (world s) = (r, w)" by fastforce
      let ?s1 = "emit [CheckTlmConditions (config_name tg)] (s\<lparr>world := w\<rparr>)"
      have f1: "frame s ?s1" by (simp add: frame_def emit_def)
      show ?thesis
      proof (cases r)
        case None
        then show ?thesis using Some Sc rw f1 Cons [of ?s1] by (auto intro: frame_trans)
      next
        case Se: (Some e)
        then show ?thesis using Some Sc rw f1 by simp
      qed
    qed
  qed
qed

lemma run_continuous_verifications_frame: "frame s (state_of (run_continuous_verifications s))"
  using check_all_frame [of s "dict_values (cfs_targets s)"]
  by (auto simp: run_continuous_verifications_def frame_def emit_def split: outcome.splits)


lemma pre_command_frame: "frame (emit [PreCommand] s) (state_of (pre_command s))"
proof -
  let ?s0 = "emit [PreCommand] s"
  have f1: "frame ?s0 (state_of (read_all (dict_values (cfs_targets ?s0)) ?s0))"
    by (rule read_all_frame)
  show ?thesis
  proof (cases "read_all (dict_values (cfs_targets ?s0)) ?s0")
    case (Raised e s1)
    then show ?thesis using f1 by (simp add: pre_command_def TimeInterface_pre_command_def)
  next
    case (Returned s1)
    have f2: "frame ?s0 s1" using f1 Returned by simp
    have f3: "frame s1 (state_of (run_continuous_verifications s1))"
      by (rule run_continuous_verifications_frame)
    show ?thesis
    proof (cases "run_continuous_verifications s1")
      case R2: (Returned s2)
      then show ?thesis using Returned f2 f3
        by (auto simp: pre_command_def TimeInterface_pre_command_def intro: frame_trans)
    next
      case R2: (Raised e s2)
      have "frame ?s0 s2" using f2 f3 R2 by (auto intro: frame_trans)
      moreover have "frame s2 (emit [LogDebug e] s2)" by (simp add: frame_emit)
      ultimately show ?thesis using Returned R2
        by (auto simp: pre_command_def TimeInterface_pre_command_def intro: frame_trans)
    qed
  qed
qed









section \<open>The loop as a sequence of polls\<close>



lemma io_no_step: "list_all is_io a \<Longrightarrow> filter is_step a = []"
proof (induction a)
  case Nil
  show ?case by simp
next
  case (Cons e a)
  then show ?case by (cases e) auto
qed










section \<open>Waiting for no time at all\<close>

text \<open>
  Claim C10. For every \<open>seconds \<le> 0\<close>, \<open>wait(seconds)\<close> performs no poll: it returns
  with the manager exactly as it found it, so neither hook was entered, no target was
  read or checked, nothing slept and \<open>exec_time\<close> is unchanged.
\<close>

theorem wait_nonpositive:
  assumes "seconds \<le> 0"
  shows "wait seconds s = Some (Returned s)"
proof -
  have "\<not> exec_time s < exec_time s + seconds" using assms by simp
  then have "wait_loop (exec_time s) seconds s = Some (Returned s)"
    by (subst wait_loop.simps) simp
  then show ?thesis by (simp add: wait_def TimeInterface_wait_def)
qed

theorem wait_nonpositive_witness:
  "(- 1 :: rat) \<le> 0 \<and>
   wait (- 1) (manager [named ''A'' steady_cfs]) = Some (Returned (manager [named ''A'' steady_cfs]))"
  using wait_nonpositive [of "- 1" "manager [named ''A'' steady_cfs]"] by simp

section \<open>The clock never runs backwards\<close>







section \<open>A wait without failures\<close>


lemma read_all_returns:
  assumes "\<forall>t\<in>set ts. t \<noteq> None"
    and "\<forall>t\<in>set ts. \<forall>tg c w e. t = Some tg \<longrightarrow> cfs tg = Some c \<longrightarrow>
           fst (read_sb_packets c w) = Some e \<longrightarrow> isinstance_Exception e"
  shows "\<exists>sr. read_all ts s = Returned sr"
  using assms
proof (induction ts arbitrary: s)
  case Nil
  show ?case by simp
next
  case (Cons t ts)
  obtain tg where tg: "t = Some tg" using Cons.prems(1) by auto
  have ih: "\<And>s1. \<exists>sr. read_all ts s1 = Returned sr"
    using Cons.IH Cons.prems by simp
  show ?case
  proof (cases "try_read_sb_packets t s")
    case (Returned s1)
    then show ?thesis using ih [of s1] by simp
  next
    case (Raised e s1)
    have ex: "isinstance_Exception e"
    proof (cases "cfs tg")
      case None
      then show ?thesis using Raised tg by (simp add: try_read_sb_packets_def)
    next
      case (Some c)
      then have "fst (read_sb_packets c (world s)) = Some e"
        using Raised tg
        by (auto simp: try_read_sb_packets_def Let_def split: prod.splits option.splits)
      then show ?thesis using Cons.prems(2) tg Some by auto
    qed
    obtain s2 where "read_failed t e s1 = Returned s2"
      using tg by (simp add: read_failed_def)
    then show ?thesis using Raised ex ih [of s2] by simp
  qed
qed

lemma check_all_returns:
  assumes "\<forall>t\<in>set ts. \<forall>tg c w. t = Some tg \<longrightarrow> cfs tg = Some c \<longrightarrow>
           fst (check_tlm_conditions c w) = None"
  shows "\<exists>sv. check_all ts s = Returned sv"
  using assms
proof (induction ts arbitrary: s)
  case Nil
  show ?case by simp
next
  case (Cons t ts)
  have ih: "\<And>s1. \<exists>sv. check_all ts s1 = Returned sv"
    using Cons.IH Cons.prems by simp
  show ?case
  proof (cases t)
    case None
    then show ?thesis using ih [of s] by simp
  next
    case (Some tg)
    show ?thesis
    proof (cases "cfs tg")
      case None
      then show ?thesis using Some ih [of s] by simp
    next
      case Sc: (Some c)
      obtain r w where rw: "check_tlm_conditions c (world s) = (r, w)" by fastforce
      have "fst (check_tlm_conditions c (world s)) = None"
        using Cons.prems Some Sc by auto
      then have "r = None" using rw by simp
      then show ?thesis
        using Some Sc rw ih [of "emit [CheckTlmConditions (config_name tg)] (s\<lparr>world := w\<rparr>)"]
        by simp
    qed
  qed
qed

lemma pre_command_returns:
  assumes "\<forall>t\<in>set (dict_values (cfs_targets s)). t \<noteq> None"
    and "\<forall>t\<in>set (dict_values (cfs_targets s)). \<forall>tg c w e. t = Some tg \<longrightarrow> cfs tg = Some c \<longrightarrow>
           fst (read_sb_packets c w) = Some e \<longrightarrow> isinstance_Exception e"
    and "\<forall>t\<in>set (dict_values (cfs_targets s)). \<forall>tg c w. t = Some tg \<longrightarrow> cfs tg = Some c \<longrightarrow>
           fst (check_tlm_conditions c w) = None"
  shows "\<exists>s1. pre_command s = Returned s1"
proof -
  let ?s0 = "emit [PreCommand] s"
  have c0: "cfs_targets ?s0 = cfs_targets s" by (simp add: emit_def)
  obtain sr where sr: "read_all (dict_values (cfs_targets ?s0)) ?s0 = Returned sr"
    using read_all_returns [of "dict_values (cfs_targets s)" ?s0] assms(1,2) c0 by auto
  have "frame ?s0 sr" using read_all_frame [of ?s0 "dict_values (cfs_targets ?s0)"] sr by simp
  then have c1: "cfs_targets sr = cfs_targets s" using c0 by (simp add: frame_def)
  obtain sv where "check_all (dict_values (cfs_targets sr)) sr = Returned sv"
    using check_all_returns [of "dict_values (cfs_targets s)" sr] assms(3) c1 by auto
  then have "run_continuous_verifications sr = Returned sv"
    by (simp add: run_continuous_verifications_def)
  then have "pre_command s = Returned sv"
    using sr by (simp add: pre_command_def TimeInterface_pre_command_def)
  then show ?thesis by blast
qed

section \<open>A wait without failures, on doubles\<close>

lemma bit_length_eq: "2 ^ b \<le> n \<Longrightarrow> n < 2 ^ Suc b \<Longrightarrow> bit_length n = Suc b"
proof (induction b arbitrary: n)
  case 0
  then have "n = 1" by simp
  then show ?case by (simp add: bit_length.simps [of "Suc 0"] bit_length.simps [of 0])
next
  case (Suc b)
  have "2 ^ b \<le> n div 2" using Suc.prems(1) by simp
  moreover have "n div 2 < 2 ^ Suc b" using Suc.prems(2) by simp
  ultimately have "bit_length (n div 2) = Suc b" by (rule Suc.IH)
  moreover have "(0 :: nat) < 2 ^ Suc b" by simp
  then have "n \<noteq> 0" using Suc.prems(1) by linarith
  ultimately show ?case by (simp add: bit_length.simps [of n])
qed

lemma floor_rat_numeral:
  "\<lfloor>(numeral a :: rat) / numeral b\<rfloor> = numeral a div numeral b"
  using floor_divide_of_int_eq [of "numeral a" "numeral b", where ?'a = rat] by simp

lemma ceiling_rat_numeral:
  "\<lceil>(numeral a :: rat) / numeral b\<rceil> = - (- numeral a div numeral b)"
  using floor_divide_of_int_eq [of "- numeral a" "numeral b", where ?'a = rat]
  by (simp add: ceiling_def)

lemma round_half_even_le: "round_half_even z \<le> \<lfloor>z\<rfloor> + 1"
  by (simp add: round_half_even_def Let_def floor_rat_numeral)

lemma double_of_normal:
  assumes lo: "2 ^ 52 \<le> x * 2 ^ n" and hi: "x * 2 ^ n < 2 ^ 53" and n: "n \<le> 1074"
  shows "double_of x = Finite (of_int (round_half_even (x * 2 ^ n)) / 2 ^ n)"
proof -
  let ?k = "1074 - n"
  let ?y = "\<bar>x\<bar> * 2 ^ 1074"
  have "(0 :: rat) < 2 ^ 52" by simp
  then have "0 < x * 2 ^ n" using lo by (rule less_le_trans)
  then have xp: "0 < x" by (simp add: zero_less_mult_iff)
  have split: "(2 :: rat) ^ 1074 = 2 ^ n * 2 ^ ?k"
    using n by (simp add: power_add [symmetric])
  have y: "?y = x * 2 ^ n * 2 ^ ?k" using xp split by simp
  have ylo: "2 ^ (52 + ?k) \<le> ?y"
    unfolding y power_add using lo by (simp add: mult_right_mono)
  have yhi: "?y < 2 ^ (53 + ?k)"
    unfolding y power_add using hi by (simp add: mult_strict_right_mono)
  have nn: "0 \<le> \<lfloor>?y\<rfloor>" by simp
  have ilo: "(2 :: int) ^ (52 + ?k) \<le> \<lfloor>?y\<rfloor>"
  proof -
    have "of_int ((2 :: int) ^ (52 + ?k)) \<le> ?y" using ylo by simp
    then show ?thesis by (simp only: le_floor_iff)
  qed
  have flo: "2 ^ (52 + ?k) \<le> nat \<lfloor>?y\<rfloor>"
    using ilo nn by (simp add: le_nat_iff)
  have ihi: "\<lfloor>?y\<rfloor> < (2 :: int) ^ (53 + ?k)"
  proof -
    have "?y < of_int ((2 :: int) ^ (53 + ?k))" using yhi by simp
    then show ?thesis by (simp only: floor_less_iff)
  qed
  have fhi: "nat \<lfloor>?y\<rfloor> < 2 ^ Suc (52 + ?k)"
    using ihi nn by (simp add: nat_less_iff)
  have bl: "bit_length (nat \<lfloor>?y\<rfloor>) = Suc (52 + ?k)" by (rule bit_length_eq [OF flo fhi])
  have k: "bit_length (nat \<lfloor>?y\<rfloor>) - 53 = ?k" using bl by simp
  have q: "?y / 2 ^ ?k = x * 2 ^ n" using y by simp
  let ?m = "round_half_even (x * 2 ^ n)"
  have "\<lfloor>x * 2 ^ n\<rfloor> < 2 ^ 53"
  proof -
    have "x * 2 ^ n < of_int (2 ^ 53)" using hi by simp
    then show ?thesis by (simp only: floor_less_iff)
  qed
  then have mle: "?m \<le> 2 ^ 53" using round_half_even_le [of "x * 2 ^ n"] by linarith
  have "?m * 2 ^ ?k \<le> 2 ^ 53 * 2 ^ ?k" using mle by (simp add: mult_right_mono)
  also have "\<dots> = (2 :: int) ^ (53 + ?k)" by (simp add: power_add)
  also have "\<dots> < 2 ^ 2098" by (rule power_strict_increasing) simp_all
  finally have nov: "\<not> 2 ^ 2098 \<le> ?m * 2 ^ ?k" by simp
  have "sgn x * of_int (?m * 2 ^ ?k) / 2 ^ 1074 = of_int ?m * 2 ^ ?k / (2 ^ n * 2 ^ ?k)"
    using xp by (simp only: split sgn_pos of_int_mult of_int_power of_int_numeral mult_1)
  also have "\<dots> = of_int ?m / 2 ^ n" by simp
  finally have val: "sgn x * of_int (?m * 2 ^ ?k) / 2 ^ 1074 = of_int ?m / 2 ^ n" .
  show ?thesis
    unfolding double_of_def Let_def k q by (simp only: nov val if_False)
qed

lemma poll_double_returns:
  assumes per: "poll_period_f d = Finite p"
    and quiet: "\<forall>t\<in>set (dict_values (cfs_targets (manager_of d))).
           \<exists>tg c. t = Some tg \<and> cfs tg = Some c \<and>
           (\<forall>w. fst (read_sb_packets c w) = None \<and> fst (check_tlm_conditions c w) = None)"
    and ns: "nanoseconds_error p = None"
    and ts: "\<forall>w. fst (time_sleep (manager_of d) p w) = None"
  shows "\<exists>m a. poll_double d =
           Returned (d\<lparr>manager_of := m,
                       exec_time_f := float_add (exec_time_f d) (Finite p)\<rparr>) \<and>
         list_all is_io a \<and>
         trace m = trace (manager_of d) @ PreCommand # a @ [PostCommand, Sleep p] \<and>
         cfs_targets m = cfs_targets (manager_of d) \<and>
         time_sleep m = time_sleep (manager_of d)"
proof -
  let ?s = "manager_of d"
  have h1: "\<forall>t\<in>set (dict_values (cfs_targets ?s)). t \<noteq> None" using quiet by auto
  have h2: "\<forall>t\<in>set (dict_values (cfs_targets ?s)). \<forall>tg c w e. t = Some tg \<longrightarrow> cfs tg = Some c \<longrightarrow>
           fst (read_sb_packets c w) = Some e \<longrightarrow> isinstance_Exception e"
    using quiet by fastforce
  have h3: "\<forall>t\<in>set (dict_values (cfs_targets ?s)). \<forall>tg c w. t = Some tg \<longrightarrow> cfs tg = Some c \<longrightarrow>
           fst (check_tlm_conditions c w) = None"
    using quiet by fastforce
  obtain s1 where s1: "pre_command ?s = Returned s1"
    using pre_command_returns [OF h1 h2 h3] by blast
  have "frame (emit [PreCommand] ?s) s1" using pre_command_frame [of ?s] s1 by simp
  then obtain a where a: "list_all is_io a"
    and t1: "trace s1 = trace ?s @ PreCommand # a"
    and c1: "cfs_targets s1 = cfs_targets ?s"
    and z1: "time_sleep s1 = time_sleep ?s"
    by (auto simp: frame_def emit_def)
  let ?s2 = "emit [PostCommand] s1"
  obtain r w where rw: "time_sleep ?s2 p (world ?s2) = (r, w)" by fastforce
  have "time_sleep ?s2 = time_sleep ?s" using z1 by (simp add: emit_def)
  then have "fst (time_sleep ?s2 p (world ?s2)) = None" using ts by simp
  then have r: "r = None" using rw by simp
  let ?s3 = "emit [Sleep p] (?s2\<lparr>world := w\<rparr>)"
  have sl: "sleep_double (Finite p) ?s2 = Returned ?s3"
    using ns rw r by (simp add: block_def)
  have "poll_double d =
      Returned (d\<lparr>manager_of := ?s3, exec_time_f := float_add (exec_time_f d) (Finite p)\<rparr>)"
    using s1 sl per
    by (simp add: poll_double_def guarded_def post_command_def TimeInterface_post_command_def)
  moreover have "trace ?s3 = trace ?s @ PreCommand # a @ [PostCommand, Sleep p]"
    using t1 by (simp add: emit_def)
  moreover have "cfs_targets ?s3 = cfs_targets ?s" using c1 by (simp add: emit_def)
  moreover have "time_sleep ?s3 = time_sleep ?s" using z1 by (simp add: emit_def)
  ultimately show ?thesis using a by blast
qed

lemma wait_loop_double_run:
  fixes c :: "nat \<Rightarrow> pyfloat"
  assumes "n - i = m" and "i \<le> n"
    and "exec_time_f d = c i"
    and "poll_period_f d = Finite p"
    and "\<forall>t\<in>set (dict_values (cfs_targets (manager_of d))).
           \<exists>tg c. t = Some tg \<and> cfs tg = Some c \<and>
           (\<forall>w. fst (read_sb_packets c w) = None \<and> fst (check_tlm_conditions c w) = None)"
    and "nanoseconds_error p = None"
    and "\<forall>w. fst (time_sleep (manager_of d) p w) = None"
    and "\<forall>j<n. float_add (c j) (Finite p) = c (Suc j)"
    and "\<forall>j<n. float_less (c j) (float_add start secs)"
    and "\<not> float_less (c n) (float_add start secs)"
  shows "\<exists>d' new. wait_loop_double start secs d = Some (Returned d') \<and>
     exec_time_f d' = c n \<and>
     trace (manager_of d') = trace (manager_of d) @ new \<and>
     filter is_step new = concat (replicate m [PreCommand, PostCommand, Sleep p])"
  using assms
proof (induction m arbitrary: i d)
  case 0
  then have "i = n" by simp
  then have "\<not> float_less (exec_time_f d) (float_add start secs)" using 0 by simp
  then have "wait_loop_double start secs d = Some (Returned d)"
    by (subst wait_loop_double.simps) simp
  then show ?case using \<open>i = n\<close> 0 by simp
next
  case (Suc m)
  then have lt: "i < n" by simp
  then have g: "float_less (exec_time_f d) (float_add start secs)" using Suc.prems by simp
  from poll_double_returns [OF Suc.prems(4,5,6,7)] obtain s1 a where
    pd: "poll_double d =
           Returned (d\<lparr>manager_of := s1,
                       exec_time_f := float_add (exec_time_f d) (Finite p)\<rparr>)"
    and a: "list_all is_io a"
    and t1: "trace s1 = trace (manager_of d) @ PreCommand # a @ [PostCommand, Sleep p]"
    and c1: "cfs_targets s1 = cfs_targets (manager_of d)"
    and z1: "time_sleep s1 = time_sleep (manager_of d)"
    by blast
  let ?d1 = "d\<lparr>manager_of := s1, exec_time_f := float_add (exec_time_f d) (Finite p)\<rparr>"
  have e1: "exec_time_f ?d1 = c (Suc i)" using Suc.prems(3,8) lt by simp
  have "\<exists>d' new. wait_loop_double start secs ?d1 = Some (Returned d') \<and>
     exec_time_f d' = c n \<and>
     trace (manager_of d') = trace (manager_of ?d1) @ new \<and>
     filter is_step new = concat (replicate m [PreCommand, PostCommand, Sleep p])"
  proof (rule Suc.IH [of "Suc i" ?d1])
    show "n - Suc i = m" using Suc.prems(1) by simp
    show "Suc i \<le> n" using lt by simp
    show "exec_time_f ?d1 = c (Suc i)" by (rule e1)
    show "poll_period_f ?d1 = Finite p" using Suc.prems(4) by simp
    show "\<forall>t\<in>set (dict_values (cfs_targets (manager_of ?d1))).
           \<exists>tg c. t = Some tg \<and> cfs tg = Some c \<and>
           (\<forall>w. fst (read_sb_packets c w) = None \<and> fst (check_tlm_conditions c w) = None)"
      using Suc.prems(5) c1 by simp
    show "nanoseconds_error p = None" by (rule Suc.prems(6))
    show "\<forall>w. fst (time_sleep (manager_of ?d1) p w) = None" using Suc.prems(7) z1 by simp
    show "\<forall>j<n. float_add (c j) (Finite p) = c (Suc j)" by (rule Suc.prems(8))
    show "\<forall>j<n. float_less (c j) (float_add start secs)" by (rule Suc.prems(9))
    show "\<not> float_less (c n) (float_add start secs)" by (rule Suc.prems(10))
  qed
  then obtain d' new where
    w1: "wait_loop_double start secs ?d1 = Some (Returned d')"
    and en: "exec_time_f d' = c n"
    and tn: "trace (manager_of d') = trace s1 @ new"
    and st: "filter is_step new = concat (replicate m [PreCommand, PostCommand, Sleep p])"
    by auto
  have "wait_loop_double start secs d = Some (Returned d')"
    using g pd w1 by (subst wait_loop_double.simps) simp
  moreover have "trace (manager_of d') =
      trace (manager_of d) @ (PreCommand # a @ [PostCommand, Sleep p] @ new)"
    using tn t1 by simp
  moreover have "filter is_step (PreCommand # a @ [PostCommand, Sleep p] @ new) =
      concat (replicate (Suc m) [PreCommand, PostCommand, Sleep p])"
    using st io_no_step [OF a] by simp
  ultimately show ?case using en by blast
qed

lemma clock_after_exact:
  assumes "\<forall>j<n. double_of (a + of_nat j * p + p) = Finite (a + of_nat (Suc j) * p)"
    and "j \<le> n"
  shows "clock_after j (Finite a) (Finite p) = Finite (a + of_nat j * p)"
  using assms(2)
proof (induction j)
  case 0
  show ?case by simp
next
  case (Suc j)
  then have "clock_after j (Finite a) (Finite p) = Finite (a + of_nat j * p)" by simp
  moreover have "double_of (a + of_nat j * p + p) = Finite (a + of_nat (Suc j) * p)"
    using assms(1) Suc.prems by simp
  ultimately show ?case by simp
qed

text \<open>
  Claim C1, as stated, fails on doubles. \<open>0.1\<close> is the double
  \<open>3602879701896397 / 2 ^ 55\<close>, and the least integer not below \<open>1.0 / 0.1\<close>, taken
  exactly, is \<open>10\<close>; but the clock after ten increments is \<open>0.9999999999999999\<close>, still
  below \<open>0.0 + 1.0\<close>, so \<open>wait(1.0)\<close> runs an eleventh poll and returns with the clock at
  \<open>1.0999999999999999\<close>.
\<close>

theorem wait_runs_an_eleventh_poll:
  "double_of (1 / 10) = Finite (3602879701896397 / 36028797018963968) \<and>
   \<lceil>1 / (3602879701896397 / 36028797018963968 :: rat)\<rceil> = 10 \<and>
   map_option raised
     (wait_double (Finite 1) (double_manager (3602879701896397 / 36028797018963968) [named ''A'' steady_cfs]))
     = Some None \<and>
   map_option (exec_time_f \<circ> state_of)
     (wait_double (Finite 1) (double_manager (3602879701896397 / 36028797018963968) [named ''A'' steady_cfs]))
     = Some (Finite (4953959590107545 / 4503599627370496)) \<and>
   map_option (filter is_step \<circ> trace \<circ> manager_of \<circ> state_of)
     (wait_double (Finite 1) (double_manager (3602879701896397 / 36028797018963968) [named ''A'' steady_cfs]))
     = Some (concat (replicate 11 [PreCommand, PostCommand, Sleep (3602879701896397 / 36028797018963968)]))"
proof -
  let ?P = "3602879701896397 / 36028797018963968 :: rat"
  let ?D = "double_manager ?P [named ''A'' steady_cfs]"
  let ?c = "\<lambda>j. clock_after j (Finite 0) (Finite ?P)"
  have p: "double_of (1 / 10) = Finite ?P"
    using double_of_normal [of "1 / 10" 56]
    by (simp add: round_half_even_def Let_def floor_rat_numeral)
  have cl: "\<lceil>1 / ?P\<rceil> = 10" by (simp add: ceiling_rat_numeral)
  have lim: "float_add (Finite 0) (Finite 1) = Finite 1"
    using double_of_normal [of 1 52]
    by (simp add: round_half_even_def Let_def)
  have ns: "nanoseconds_error ?P = None"
    using double_of_normal [of "?P * 10 ^ 9" 26]
    by (simp add: nanoseconds_error_def round_half_even_def Let_def floor_rat_numeral)
  have r0: "double_of (0 + ?P) = Finite (3602879701896397 / 36028797018963968)"
    using double_of_normal [of "0 + ?P" 56]
    by (simp add: round_half_even_def Let_def floor_rat_numeral)
  have r1: "double_of (3602879701896397 / 36028797018963968 + ?P) = Finite (3602879701896397 / 18014398509481984)"
    using double_of_normal [of "3602879701896397 / 36028797018963968 + ?P" 55]
    by (simp add: round_half_even_def Let_def floor_rat_numeral)
  have r2: "double_of (3602879701896397 / 18014398509481984 + ?P) = Finite (1351079888211149 / 4503599627370496)"
    using double_of_normal [of "3602879701896397 / 18014398509481984 + ?P" 54]
    by (simp add: round_half_even_def Let_def floor_rat_numeral)
  have r3: "double_of (1351079888211149 / 4503599627370496 + ?P) = Finite (3602879701896397 / 9007199254740992)"
    using double_of_normal [of "1351079888211149 / 4503599627370496 + ?P" 54]
    by (simp add: round_half_even_def Let_def floor_rat_numeral)
  have r4: "double_of (3602879701896397 / 9007199254740992 + ?P) = Finite (1 / 2)"
    using double_of_normal [of "3602879701896397 / 9007199254740992 + ?P" 53]
    by (simp add: round_half_even_def Let_def floor_rat_numeral)
  have r5: "double_of (1 / 2 + ?P) = Finite (5404319552844595 / 9007199254740992)"
    using double_of_normal [of "1 / 2 + ?P" 53]
    by (simp add: round_half_even_def Let_def floor_rat_numeral)
  have r6: "double_of (5404319552844595 / 9007199254740992 + ?P) = Finite (3152519739159347 / 4503599627370496)"
    using double_of_normal [of "5404319552844595 / 9007199254740992 + ?P" 53]
    by (simp add: round_half_even_def Let_def floor_rat_numeral)
  have r7: "double_of (3152519739159347 / 4503599627370496 + ?P) = Finite (7205759403792793 / 9007199254740992)"
    using double_of_normal [of "3152519739159347 / 4503599627370496 + ?P" 53]
    by (simp add: round_half_even_def Let_def floor_rat_numeral)
  have r8: "double_of (7205759403792793 / 9007199254740992 + ?P) = Finite (2026619832316723 / 2251799813685248)"
    using double_of_normal [of "7205759403792793 / 9007199254740992 + ?P" 53]
    by (simp add: round_half_even_def Let_def floor_rat_numeral)
  have r9: "double_of (2026619832316723 / 2251799813685248 + ?P) = Finite (9007199254740991 / 9007199254740992)"
    using double_of_normal [of "2026619832316723 / 2251799813685248 + ?P" 53]
    by (simp add: round_half_even_def Let_def floor_rat_numeral)
  have r10: "double_of (9007199254740991 / 9007199254740992 + ?P) = Finite (4953959590107545 / 4503599627370496)"
    using double_of_normal [of "9007199254740991 / 9007199254740992 + ?P" 52]
    by (simp add: round_half_even_def Let_def floor_rat_numeral)
  have k0: "?c 0 = Finite 0" by simp
  have k1: "?c 1 = Finite (3602879701896397 / 36028797018963968)"
    by (simp only: One_nat_def clock_after.simps float_add.simps r0)
  have k2: "?c 2 = Finite (3602879701896397 / 18014398509481984)"
  proof -
    have "(2 :: nat) = Suc 1" by simp
    then show ?thesis by (simp only: clock_after.simps k1 float_add.simps r1)
  qed
  have k3: "?c 3 = Finite (1351079888211149 / 4503599627370496)"
  proof -
    have "(3 :: nat) = Suc 2" by simp
    then show ?thesis by (simp only: clock_after.simps k2 float_add.simps r2)
  qed
  have k4: "?c 4 = Finite (3602879701896397 / 9007199254740992)"
  proof -
    have "(4 :: nat) = Suc 3" by simp
    then show ?thesis by (simp only: clock_after.simps k3 float_add.simps r3)
  qed
  have k5: "?c 5 = Finite (1 / 2)"
  proof -
    have "(5 :: nat) = Suc 4" by simp
    then show ?thesis by (simp only: clock_after.simps k4 float_add.simps r4)
  qed
  have k6: "?c 6 = Finite (5404319552844595 / 9007199254740992)"
  proof -
    have "(6 :: nat) = Suc 5" by simp
    then show ?thesis by (simp only: clock_after.simps k5 float_add.simps r5)
  qed
  have k7: "?c 7 = Finite (3152519739159347 / 4503599627370496)"
  proof -
    have "(7 :: nat) = Suc 6" by simp
    then show ?thesis by (simp only: clock_after.simps k6 float_add.simps r6)
  qed
  have k8: "?c 8 = Finite (7205759403792793 / 9007199254740992)"
  proof -
    have "(8 :: nat) = Suc 7" by simp
    then show ?thesis by (simp only: clock_after.simps k7 float_add.simps r7)
  qed
  have k9: "?c 9 = Finite (2026619832316723 / 2251799813685248)"
  proof -
    have "(9 :: nat) = Suc 8" by simp
    then show ?thesis by (simp only: clock_after.simps k8 float_add.simps r8)
  qed
  have k10: "?c 10 = Finite (9007199254740991 / 9007199254740992)"
  proof -
    have "(10 :: nat) = Suc 9" by simp
    then show ?thesis by (simp only: clock_after.simps k9 float_add.simps r9)
  qed
  have k11: "?c 11 = Finite (4953959590107545 / 4503599627370496)"
  proof -
    have "(11 :: nat) = Suc 10" by simp
    then show ?thesis by (simp only: clock_after.simps k10 float_add.simps r10)
  qed
  have below: "\<forall>j<11. float_less (?c j) (float_add (Finite 0) (Finite 1))"
  proof (intro allI impI)
    fix j :: nat
    assume "j < 11"
    then have "j = 0 \<or> j = 1 \<or> j = 2 \<or> j = 3 \<or> j = 4 \<or> j = 5 \<or> j = 6 \<or>
               j = 7 \<or> j = 8 \<or> j = 9 \<or> j = 10"
      by presburger
    then consider "j = 0" | "j = 1" | "j = 2" | "j = 3" | "j = 4" | "j = 5" | "j = 6"
      | "j = 7" | "j = 8" | "j = 9" | "j = 10"
      by blast
    then show "float_less (?c j) (float_add (Finite 0) (Finite 1))"
    proof cases
      case 1
      then show ?thesis by (simp only: k0 lim float_less.simps; simp)
    next
      case 2
      then show ?thesis by (simp only: k1 lim float_less.simps; simp)
    next
      case 3
      then show ?thesis by (simp only: k2 lim float_less.simps; simp)
    next
      case 4
      then show ?thesis by (simp only: k3 lim float_less.simps; simp)
    next
      case 5
      then show ?thesis by (simp only: k4 lim float_less.simps; simp)
    next
      case 6
      then show ?thesis by (simp only: k5 lim float_less.simps; simp)
    next
      case 7
      then show ?thesis by (simp only: k6 lim float_less.simps; simp)
    next
      case 8
      then show ?thesis by (simp only: k7 lim float_less.simps; simp)
    next
      case 9
      then show ?thesis by (simp only: k8 lim float_less.simps; simp)
    next
      case 10
      then show ?thesis by (simp only: k9 lim float_less.simps; simp)
    next
      case 11
      then show ?thesis by (simp only: k10 lim float_less.simps; simp)
    qed
  qed
  have stop: "\<not> float_less (?c 11) (float_add (Finite 0) (Finite 1))"
    by (simp only: k11 lim float_less.simps; simp)
  have step: "\<forall>j<11. float_add (?c j) (Finite ?P) = ?c (Suc j)" by simp
  have quiet: "\<forall>t\<in>set (dict_values (cfs_targets (manager_of ?D))).
           \<exists>tg c. t = Some tg \<and> cfs tg = Some c \<and>
           (\<forall>w. fst (read_sb_packets c w) = None \<and> fst (check_tlm_conditions c w) = None)"
    by (simp add: double_manager_def manager_def named_def steady_cfs_def dict_values_def)
  have slp: "\<forall>w. fst (time_sleep (manager_of ?D) ?P w) = None"
    by (simp add: double_manager_def manager_def)
  have "\<exists>d' new. wait_loop_double (Finite 0) (Finite 1) ?D = Some (Returned d') \<and>
     exec_time_f d' = ?c 11 \<and>
     trace (manager_of d') = trace (manager_of ?D) @ new \<and>
     filter is_step new = concat (replicate 11 [PreCommand, PostCommand, Sleep ?P])"
  proof (rule wait_loop_double_run [of 11 0 11 ?D ?c ?P])
    show "(11 :: nat) - 0 = 11" by simp
    show "(0 :: nat) \<le> 11" by simp
    show "exec_time_f ?D = ?c 0" by (simp add: double_manager_def)
    show "poll_period_f ?D = Finite ?P" by (simp add: double_manager_def)
  qed (rule quiet ns slp step below stop)+
  then obtain d' new where
    "wait_double (Finite 1) ?D = Some (Returned d')"
    "exec_time_f d' = ?c 11"
    "trace (manager_of d') = new"
    "filter is_step new = concat (replicate 11 [PreCommand, PostCommand, Sleep ?P])"
    by (auto simp: wait_double_def TimeInterface_wait_def double_manager_def manager_def)
  then have "map_option raised (wait_double (Finite 1) ?D) = Some None \<and>
    map_option (exec_time_f \<circ> state_of) (wait_double (Finite 1) ?D)
      = Some (Finite (4953959590107545 / 4503599627370496)) \<and>
    map_option (filter is_step \<circ> trace \<circ> manager_of \<circ> state_of)
      (wait_double (Finite 1) ?D)
      = Some (concat (replicate 11 [PreCommand, PostCommand, Sleep ?P]))"
    using k11 by simp
  then show ?thesis using p cl by blast
qed

text \<open>
  Claim C1, amended. Take a call of \<open>wait(seconds)\<close> in which no telemetry read fails,
  no verification raises and \<open>time.sleep\<close> accepts the poll period \<open>p\<close> and returns. If
  \<open>n\<close> is the first count at which the clock, \<open>p\<close> added \<open>n\<close> times to its value at the
  start with every sum rounded to a double, is no longer below the rounded sum of the
  start and \<open>seconds\<close>, then \<open>wait\<close> performs exactly \<open>n\<close> polls (each one \<open>pre_command\<close>,
  \<open>post_command\<close> and a sleep of \<open>p\<close>) and returns with \<open>exec_time\<close> at that clock. When
  moreover \<open>seconds > 0\<close>, \<open>p > 0\<close> and none of these sums is rounded, \<open>n\<close> is
  \<open>ceil(seconds / p)\<close> and \<open>exec_time\<close> ends at its start value plus
  \<open>ceil(seconds / p) * p\<close>.
\<close>

theorem wait_double_polls:
  assumes "exec_time_f d = t0"
    and "poll_period_f d = Finite p"
    and "\<forall>t\<in>set (dict_values (cfs_targets (manager_of d))).
           \<exists>tg c. t = Some tg \<and> cfs tg = Some c \<and>
           (\<forall>w. fst (read_sb_packets c w) = None \<and> fst (check_tlm_conditions c w) = None)"
    and "nanoseconds_error p = None"
    and "\<forall>w. fst (time_sleep (manager_of d) p w) = None"
    and "\<forall>j<n. float_less (clock_after j t0 (Finite p)) (float_add t0 seconds)"
    and "\<not> float_less (clock_after n t0 (Finite p)) (float_add t0 seconds)"
  shows "\<exists>d' new. wait_double seconds d = Some (Returned d') \<and>
     exec_time_f d' = clock_after n t0 (Finite p) \<and>
     trace (manager_of d') = trace (manager_of d) @ new \<and>
     filter is_step new = concat (replicate n [PreCommand, PostCommand, Sleep p]) \<and>
     (\<forall>a sec. t0 = Finite a \<and> seconds = Finite sec \<and> 0 < sec \<and> 0 < p \<and>
        double_of (a + sec) = Finite (a + sec) \<and>
        (\<forall>j<n. double_of (a + of_nat j * p + p) = Finite (a + of_nat (Suc j) * p))
        \<longrightarrow> n = nat \<lceil>sec / p\<rceil> \<and>
            exec_time_f d' = Finite (a + of_int \<lceil>sec / p\<rceil> * p))"
proof -
  let ?c = "\<lambda>j. clock_after j t0 (Finite p)"
  have step: "\<forall>j<n. float_add (?c j) (Finite p) = ?c (Suc j)" by simp
  have "\<exists>d' new. wait_loop_double t0 seconds d = Some (Returned d') \<and>
     exec_time_f d' = ?c n \<and>
     trace (manager_of d') = trace (manager_of d) @ new \<and>
     filter is_step new = concat (replicate n [PreCommand, PostCommand, Sleep p])"
  proof (rule wait_loop_double_run [of n 0 n d ?c p])
    show "n - 0 = n" by simp
    show "0 \<le> n" by simp
    show "exec_time_f d = ?c 0" using assms(1) by simp
  qed (rule assms step)+
  then obtain d' new where
    w: "wait_double seconds d = Some (Returned d')"
    and e: "exec_time_f d' = ?c n"
    and t: "trace (manager_of d') = trace (manager_of d) @ new"
    and st: "filter is_step new = concat (replicate n [PreCommand, PostCommand, Sleep p])"
    using assms(1) by (auto simp: wait_double_def TimeInterface_wait_def)
  have ex: "\<forall>a sec. t0 = Finite a \<and> seconds = Finite sec \<and> 0 < sec \<and> 0 < p \<and>
        double_of (a + sec) = Finite (a + sec) \<and>
        (\<forall>j<n. double_of (a + of_nat j * p + p) = Finite (a + of_nat (Suc j) * p))
        \<longrightarrow> n = nat \<lceil>sec / p\<rceil> \<and>
            exec_time_f d' = Finite (a + of_int \<lceil>sec / p\<rceil> * p)"
  proof (intro allI impI)
    fix a sec
    assume h: "t0 = Finite a \<and> seconds = Finite sec \<and> 0 < sec \<and> 0 < p \<and>
        double_of (a + sec) = Finite (a + sec) \<and>
        (\<forall>j<n. double_of (a + of_nat j * p + p) = Finite (a + of_nat (Suc j) * p))"
    then have t0: "t0 = Finite a" and sec: "seconds = Finite sec" and sp: "0 < sec"
      and pp: "0 < p" and lim: "double_of (a + sec) = Finite (a + sec)"
      and exact: "\<forall>j<n. double_of (a + of_nat j * p + p) = Finite (a + of_nat (Suc j) * p)"
      by simp_all
    have ck: "\<And>j. j \<le> n \<Longrightarrow> clock_after j (Finite a) (Finite p) = Finite (a + of_nat j * p)"
      by (rule clock_after_exact [OF exact])
    have L: "float_add t0 seconds = Finite (a + sec)" using t0 sec lim by simp
    have below: "\<And>j. j < n \<Longrightarrow> of_nat j * p < sec"
    proof -
      fix j assume j: "j < n"
      then have "float_less (clock_after j (Finite a) (Finite p)) (Finite (a + sec))"
        using assms(6) t0 L by simp
      then show "of_nat j * p < sec" using ck [of j] j by simp
    qed
    have "\<not> float_less (clock_after n (Finite a) (Finite p)) (Finite (a + sec))"
      using assms(7) t0 L by simp
    then have stop: "sec \<le> of_nat n * p" using ck [of n] by simp
    have npos: "0 < n"
    proof (rule ccontr)
      assume "\<not> 0 < n"
      then have "n = 0" by simp
      then show False using stop sp by simp
    qed
    have "of_nat (n - 1) * p < sec" using below [of "n - 1"] npos by simp
    then have "(of_nat n - 1) * p < sec" using npos by (simp add: of_nat_diff)
    then have lo: "of_int (int n) - 1 < sec / p" using pp by (simp add: pos_less_divide_eq)
    have hi: "sec / p \<le> of_int (int n)" using stop pp by (simp add: pos_divide_le_eq)
    have c: "\<lceil>sec / p\<rceil> = int n" by (rule ceiling_unique [OF lo hi])
    then have "n = nat \<lceil>sec / p\<rceil>" by simp
    moreover have "exec_time_f d' = Finite (a + of_int \<lceil>sec / p\<rceil> * p)"
      using e t0 ck [of n] c by simp
    ultimately show "n = nat \<lceil>sec / p\<rceil> \<and>
            exec_time_f d' = Finite (a + of_int \<lceil>sec / p\<rceil> * p)" by simp
  qed
  show ?thesis using w e t st ex by blast
qed

theorem wait_double_polls_witness:
  "\<exists>d'. wait_double (Finite 1) (double_manager (1 / 4) [named ''A'' steady_cfs])
           = Some (Returned d') \<and>
      filter is_step (trace (manager_of d')) =
        concat (replicate 4 [PreCommand, PostCommand, Sleep (1 / 4)]) \<and>
      (4 :: nat) = nat \<lceil>1 / (1 / 4 :: rat)\<rceil> \<and>
      exec_time_f d' = Finite (0 + of_int \<lceil>1 / (1 / 4 :: rat)\<rceil> * (1 / 4))"
proof -
  let ?D = "double_manager (1 / 4) [named ''A'' steady_cfs]"
  have r1: "double_of (1 / 4) = Finite (1 / 4)"
    using double_of_normal [of "1 / 4" 54]
    by (simp add: round_half_even_def Let_def floor_rat_numeral)
  have r2: "double_of (1 / 2) = Finite (1 / 2)"
    using double_of_normal [of "1 / 2" 53]
    by (simp add: round_half_even_def Let_def floor_rat_numeral)
  have r3: "double_of (3 / 4) = Finite (3 / 4)"
    using double_of_normal [of "3 / 4" 53]
    by (simp add: round_half_even_def Let_def floor_rat_numeral)
  have r4: "double_of 1 = Finite 1"
    using double_of_normal [of 1 52]
    by (simp add: round_half_even_def Let_def)
  have r5: "double_of 250000000 = Finite 250000000"
    using double_of_normal [of 250000000 25]
    by (simp add: round_half_even_def Let_def)
  have k0: "clock_after 0 (Finite 0) (Finite (1 / 4)) = Finite 0" by simp
  have k1: "clock_after 1 (Finite 0) (Finite (1 / 4)) = Finite (1 / 4)"
    using r1 by simp
  have k2: "clock_after 2 (Finite 0) (Finite (1 / 4)) = Finite (1 / 2)"
    using r1 r2 by (simp add: eval_nat_numeral)
  have k3: "clock_after 3 (Finite 0) (Finite (1 / 4)) = Finite (3 / 4)"
    using r1 r2 r3 by (simp add: eval_nat_numeral)
  have k4: "clock_after 4 (Finite 0) (Finite (1 / 4)) = Finite 1"
    using r1 r2 r3 r4 by (simp add: eval_nat_numeral)
  have lim: "float_add (Finite 0) (Finite 1) = Finite 1" using r4 by simp
  have h1: "exec_time_f ?D = Finite 0" by (simp add: double_manager_def)
  have h2: "poll_period_f ?D = Finite (1 / 4)" by (simp add: double_manager_def)
  have h3: "\<forall>t\<in>set (dict_values (cfs_targets (manager_of ?D))).
           \<exists>tg c. t = Some tg \<and> cfs tg = Some c \<and>
           (\<forall>w. fst (read_sb_packets c w) = None \<and> fst (check_tlm_conditions c w) = None)"
    by (simp add: double_manager_def manager_def named_def steady_cfs_def dict_values_def)
  have h4: "nanoseconds_error (1 / 4) = None"
    using r5 by (simp add: nanoseconds_error_def)
  have h5: "\<forall>w. fst (time_sleep (manager_of ?D) (1 / 4) w) = None"
    by (simp add: double_manager_def manager_def)
  have four: "\<And>j :: nat. j < 4 \<Longrightarrow> j = 0 \<or> j = 1 \<or> j = 2 \<or> j = 3" by presburger
  have h6: "\<forall>j<4. float_less (clock_after j (Finite 0) (Finite (1 / 4)))
              (float_add (Finite 0) (Finite 1))"
  proof (intro allI impI)
    fix j :: nat
    assume "j < 4"
    then consider "j = 0" | "j = 1" | "j = 2" | "j = 3" using four by blast
    then show "float_less (clock_after j (Finite 0) (Finite (1 / 4)))
              (float_add (Finite 0) (Finite 1))"
    proof cases
      case 1
      then show ?thesis by (simp only: k0 lim float_less.simps; simp)
    next
      case 2
      then show ?thesis by (simp only: k1 lim float_less.simps; simp)
    next
      case 3
      then show ?thesis by (simp only: k2 lim float_less.simps; simp)
    next
      case 4
      then show ?thesis by (simp only: k3 lim float_less.simps; simp)
    qed
  qed
  have h7: "\<not> float_less (clock_after 4 (Finite 0) (Finite (1 / 4)))
              (float_add (Finite 0) (Finite 1))"
    by (simp only: k4 lim float_less.simps; simp)
  have e2: "\<forall>j<4. double_of (0 + of_nat j * (1 / 4) + 1 / 4)
              = Finite (0 + of_nat (Suc j) * (1 / 4))"
  proof (intro allI impI)
    fix j :: nat
    assume "j < 4"
    then consider "j = 0" | "j = 1" | "j = 2" | "j = 3" using four by blast
    then show "double_of (0 + of_nat j * (1 / 4) + 1 / 4)
              = Finite (0 + of_nat (Suc j) * (1 / 4))"
    proof cases
      case 1
      then show ?thesis using r1 by simp
    next
      case 2
      then show ?thesis using r2 by simp
    next
      case 3
      then show ?thesis using r3 by simp
    next
      case 4
      then show ?thesis using r4 by simp
    qed
  qed
  have pre: "Finite 0 = Finite (0 :: rat) \<and> Finite 1 = Finite (1 :: rat) \<and>
        (0 :: rat) < 1 \<and> (0 :: rat) < 1 / 4 \<and>
        double_of (0 + 1) = Finite (0 + 1) \<and>
        (\<forall>j<4. double_of (0 + of_nat j * (1 / 4) + 1 / 4)
              = Finite (0 + of_nat (Suc j) * (1 / 4)))"
    using r4 e2 by simp
  from wait_double_polls [OF h1 h2 h3 h4 h5 h6 h7] obtain d' new where
    w: "wait_double (Finite 1) ?D = Some (Returned d')"
    and t: "trace (manager_of d') = trace (manager_of ?D) @ new"
    and st: "filter is_step new = concat (replicate 4 [PreCommand, PostCommand, Sleep (1 / 4)])"
    and imp: "\<forall>a sec. Finite 0 = Finite a \<and> Finite 1 = Finite sec \<and> 0 < sec \<and>
        (0 :: rat) < 1 / 4 \<and>
        double_of (a + sec) = Finite (a + sec) \<and>
        (\<forall>j<4. double_of (a + of_nat j * (1 / 4) + 1 / 4) = Finite (a + of_nat (Suc j) * (1 / 4)))
        \<longrightarrow> 4 = nat \<lceil>sec / (1 / 4)\<rceil> \<and>
            exec_time_f d' = Finite (a + of_int \<lceil>sec / (1 / 4)\<rceil> * (1 / 4))"
    by blast
  have n: "(4 :: nat) = nat \<lceil>1 / (1 / 4 :: rat)\<rceil> \<and>
      exec_time_f d' = Finite (0 + of_int \<lceil>1 / (1 / 4 :: rat)\<rceil> * (1 / 4))"
    by (rule imp [rule_format, of 0 1, OF pre])
  have "filter is_step (trace (manager_of d')) =
        concat (replicate 4 [PreCommand, PostCommand, Sleep (1 / 4)])"
    using t st by (simp add: double_manager_def manager_def)
  then show ?thesis using w n by blast
qed

section \<open>A wait that aborts\<close>








lemmas run_defs =
  poll_def guarded_def pre_command_def post_command_def sleep_def
  TimeInterface_pre_command_def TimeInterface_post_command_def
  run_continuous_verifications_def try_read_sb_packets_def read_failed_def
  handle_test_exception_during_wait_def emit_def dict_values_def Let_def
  manager_def named_def sleep_error_def block_def



section \<open>The order of the hooks\<close>





section \<open>Telemetry reads that fail\<close>

lemma io_no_read_failed:
  "filter is_read [LogError m, LogTraceback e] = []"
  by simp



text \<open>
  A registry entry that is \<open>None\<close> is outside the amended claim: the handler of line 78
  reads \<open>target.config.name\<close> and raises in its turn, which ends \<open>pre_command\<close>.
\<close>

lemma none_target_ends_pre_command:
  "pre_command (manager [(''A'', None), named ''B'' steady_cfs]) =
     Raised AttributeError
       ((manager [(''A'', None), named ''B'' steady_cfs])\<lparr>trace := [PreCommand]\<rparr>)"
  by (simp add: run_defs steady_cfs_def)





section \<open>The wire format of the headers\<close>

lemmas layout_defs =
  struct_bytes_def struct_size_def field_align_def align_up_def from_buffer_copy_def
  CcsdsSecondaryCmdHeader_pack_def CcsdsSecondaryCmdHeader_fields_def
  CcsdsSecondaryTlmHeader_pack_def CcsdsSecondaryTlmHeader_fields_def

lemma encode_cmd_bytes:
  "encode_cmd h = [function_code h mod 256, checksum h mod 256]"
  by (simp add: encode_cmd_def layout_defs)

lemma encode_tlm_bytes:
  "encode_tlm h =
     [timestamp_seconds h div 16777216 mod 256, timestamp_seconds h div 65536 mod 256,
      timestamp_seconds h div 256 mod 256, timestamp_seconds h mod 256,
      timestamp_subseconds h div 256 mod 256, timestamp_subseconds h mod 256]"
  by (simp add: encode_tlm_def layout_defs eval_nat_numeral)

lemma foldl_be_bytes:
  "foldl (\<lambda>a b. a * 256 + b) a (be_bytes n v) = a * 256 ^ n + v mod 256 ^ n"
proof (induction n arbitrary: a)
  case 0
  show ?case by simp
next
  case (Suc n)
  have "v mod (256 ^ n * 256) = 256 ^ n * (v div 256 ^ n mod 256) + v mod 256 ^ n"
    by (rule zmod_zmult2_eq) simp
  then show ?case using Suc [of "a * 256 + v div 256 ^ n mod 256"]
    by (simp add: algebra_simps)
qed

lemma be_int_be_bytes: "be_int (be_bytes n v) = v mod 256 ^ n"
  by (simp add: be_int_def foldl_be_bytes)

text \<open>
  Claim C7. For every integer \<open>v\<close>, also out of \<open>0..255\<close>, \<open>get_function_code\<close> after
  \<open>set_function_code(v)\<close> returns \<open>v mod 256\<close>, and \<open>get_checksum\<close> after \<open>set_checksum(v)\<close>
  returns \<open>v mod 256\<close>; the setters check no range and raise nothing (they are total),
  and each leaves the other field alone.
\<close>

theorem setters_wrap_modulo_256:
  "get_function_code (set_function_code v h) = v mod 256 \<and>
   get_checksum (set_checksum v h) = v mod 256 \<and>
   get_checksum (set_function_code v h) = get_checksum h \<and>
   get_function_code (set_checksum v h) = get_function_code h \<and>
   encode_cmd (set_checksum w (set_function_code v h)) = [v mod 256, w mod 256]"
  by (simp add: get_function_code_def get_checksum_def set_function_code_def
      set_checksum_def store_def encode_cmd_bytes)

text \<open>
  Claim C6. For field values in range, the command header serializes to the two bytes
  \<open>function_code\<close>, \<open>checksum\<close>, and the telemetry header to the four bytes of
  \<open>timestamp_seconds\<close>, most significant first, followed by the two bytes of
  \<open>timestamp_subseconds\<close>, most significant first: the fields in the order of their
  declaration, with no padding byte.
\<close>

theorem header_wire_layout:
  assumes "0 \<le> function_code h" "function_code h \<le> 255"
    and "0 \<le> checksum h" "checksum h \<le> 255"
    and "0 \<le> timestamp_seconds t" "timestamp_seconds t < 2 ^ 32"
    and "0 \<le> timestamp_subseconds t" "timestamp_subseconds t < 2 ^ 16"
  shows "encode_cmd h = [function_code h, checksum h] \<and>
         encode_tlm t =
           [timestamp_seconds t div 2 ^ 24, timestamp_seconds t div 2 ^ 16 mod 256,
            timestamp_seconds t div 2 ^ 8 mod 256, timestamp_seconds t mod 256,
            timestamp_subseconds t div 2 ^ 8, timestamp_subseconds t mod 256] \<and>
         be_int (take 4 (encode_tlm t)) = timestamp_seconds t \<and>
         be_int (drop 4 (encode_tlm t)) = timestamp_subseconds t"
proof -
  have a: "encode_cmd h = [function_code h, checksum h]"
    using assms(1-4) by (simp add: encode_cmd_bytes)
  have "timestamp_seconds t div 16777216 < 256" using assms(6) by simp
  moreover have "0 \<le> timestamp_seconds t div 16777216" using assms(5) by simp
  ultimately have s: "timestamp_seconds t div 16777216 mod 256 = timestamp_seconds t div 16777216"
    by simp
  have "timestamp_subseconds t div 256 < 256" using assms(8) by simp
  moreover have "0 \<le> timestamp_subseconds t div 256" using assms(7) by simp
  ultimately have ss: "timestamp_subseconds t div 256 mod 256 = timestamp_subseconds t div 256"
    by simp
  have p24: "(2 :: int) ^ 24 = 16777216" and p16: "(2 :: int) ^ 16 = 65536"
    and p8: "(2 :: int) ^ 8 = 256" by simp_all
  have b: "encode_tlm t =
           [timestamp_seconds t div 2 ^ 24, timestamp_seconds t div 2 ^ 16 mod 256,
            timestamp_seconds t div 2 ^ 8 mod 256, timestamp_seconds t mod 256,
            timestamp_subseconds t div 2 ^ 8, timestamp_subseconds t mod 256]"
    by (simp only: encode_tlm_bytes p24 p16 p8 s ss)
  have e4: "take 4 (encode_tlm t) = be_bytes 4 (timestamp_seconds t)"
    by (simp add: encode_tlm_bytes eval_nat_numeral)
  have e2: "drop 4 (encode_tlm t) = be_bytes 2 (timestamp_subseconds t)"
    by (simp add: encode_tlm_bytes eval_nat_numeral)
  have c: "be_int (take 4 (encode_tlm t)) = timestamp_seconds t"
    using assms(5,6) by (simp only: e4 be_int_be_bytes) simp
  have d: "be_int (drop 4 (encode_tlm t)) = timestamp_subseconds t"
    using assms(7,8) by (simp only: e2 be_int_be_bytes) simp
  show ?thesis using a b c d by blast
qed

theorem header_wire_layout_witness:
  "encode_cmd \<lparr>function_code = 3, checksum = 200\<rparr> = [3, 200] \<and>
   encode_tlm \<lparr>timestamp_seconds = 16909060, timestamp_subseconds = 1286\<rparr> = [1, 2, 3, 4, 5, 6]"
  using header_wire_layout [of "\<lparr>function_code = 3, checksum = 200\<rparr>"
          "\<lparr>timestamp_seconds = 16909060, timestamp_subseconds = 1286\<rparr>"]
  by simp



end
